theory Spec2Isabelle
  imports Main
begin

section \<open>Python values used by the scripts\<close>

text \<open>
  Strings are lists of characters; a character stands for a code point below 256.
  Every exception the modelled code can raise is a value of \<open>error\<close>, and a function
  that can raise returns \<open>error + 'a\<close> with \<open>Inl\<close> for the exception.
\<close>

datatype error = ValueError | TypeError | AssertionError | IndexError | KeyError | AttributeError

definition bind_err :: "error + 'a \<Rightarrow> ('a \<Rightarrow> error + 'b) \<Rightarrow> error + 'b" where
  "bind_err m f = (case m of Inl e \<Rightarrow> Inl e | Inr x \<Rightarrow> f x)"

text \<open>\<open>xs[i]\<close>: a negative index counts from the end, an index out of range raises.\<close>

definition getitem :: "'a list \<Rightarrow> int \<Rightarrow> error + 'a" where
  "getitem xs i =
     (if 0 \<le> i \<and> i < int (length xs) then Inr (xs ! nat i)
      else if i < 0 \<and> - int (length xs) \<le> i then Inr (xs ! nat (int (length xs) + i))
      else Inl IndexError)"

text \<open>
  Slices \<open>xs[a:b]\<close>: a bound that is absent is \<open>None\<close>; a negative bound counts from
  the end; both are clamped to the list, and a slice whose bounds cross is empty.
\<close>

definition norm_index :: "nat \<Rightarrow> int \<Rightarrow> nat" where
  "norm_index n i = (if i < 0 then nat (int n + i) else min n (nat i))"

definition slice_bounds :: "nat \<Rightarrow> int option \<Rightarrow> int option \<Rightarrow> nat \<times> nat" where
  "slice_bounds n a b =
     ((case a of None \<Rightarrow> 0 | Some i \<Rightarrow> norm_index n i),
      (case b of None \<Rightarrow> n | Some j \<Rightarrow> norm_index n j))"

definition slice :: "'a list \<Rightarrow> int option \<Rightarrow> int option \<Rightarrow> 'a list" where
  "slice xs a b = (case slice_bounds (length xs) a b of (lo, hi) \<Rightarrow> drop lo (take hi xs))"

text \<open>\<open>t[a:b] = v\<close> on a one-dimensional tensor: every position of the slice becomes \<open>v\<close>.\<close>

definition slice_fill :: "'a list \<Rightarrow> int option \<Rightarrow> int option \<Rightarrow> 'a \<Rightarrow> 'a list" where
  "slice_fill xs a b v =
     (case slice_bounds (length xs) a b of
        (lo, hi) \<Rightarrow> if lo < hi then take lo xs @ replicate (hi - lo) v @ drop hi xs else xs)"

subsection \<open>String methods\<close>

definition startswith :: "string \<Rightarrow> string \<Rightarrow> bool" where
  "startswith s p = (take (length p) s = p)"

text \<open>\<open>s.find(sub)\<close>: the lowest index at which \<open>sub\<close> occurs, or \<open>-1\<close>.\<close>

fun str_find :: "string \<Rightarrow> string \<Rightarrow> int" where
  "str_find [] sub = (if sub = [] then 0 else - 1)"
| "str_find (c # cs) sub =
     (if startswith (c # cs) sub then 0
      else (let r = str_find cs sub in if r < 0 then - 1 else r + 1))"

text \<open>\<open>sub in s\<close>.\<close>

definition contains :: "string \<Rightarrow> string \<Rightarrow> bool" where
  "contains s sub = (0 \<le> str_find s sub)"

text \<open>
  \<open>s.split(sep)\<close> for a non-empty \<open>sep\<close>: cut at the leftmost occurrence, go on after it.
  (An empty \<open>sep\<close> raises and \<open>None\<close> splits at white space: see \<open>str_split\<close>.)
\<close>

function split_on :: "string \<Rightarrow> string \<Rightarrow> string list" where
  "split_on s sep =
     (let i = str_find s sep
      in if sep = [] \<or> i < 0 then [s]
         else take (nat i) s # split_on (drop (nat i + length sep) s) sep)"
  by pat_completeness auto
termination
proof (relation "measure (\<lambda>(s, sep). length s)", goal_cases)
  case 1
  show ?case by simp
next
  case (2 s sep i)
  have fits: "0 \<le> str_find t sep \<Longrightarrow> nat (str_find t sep) + length sep \<le> length t" for t
  proof (induction t)
    case Nil
    then show ?case by (simp split: if_splits)
  next
    case (Cons c cs)
    show ?case
    proof (cases "startswith (c # cs) sep")
      case True
      then have "length (take (length sep) (c # cs)) = length sep"
        by (simp add: startswith_def)
      then have "length sep \<le> length (c # cs)" by simp
      with True show ?thesis by simp
    next
      case False
      with Cons.prems have "0 \<le> str_find cs sep"
        by (simp add: Let_def split: if_splits)
      with Cons.IH False show ?thesis
        by (simp add: Let_def nat_add_distrib)
    qed
  qed
  from 2 have "0 \<le> str_find s sep" and "sep \<noteq> []" by auto
  from fits [OF this(1)] this(2) show ?case
    using 2 by (cases sep) auto
qed

declare split_on.simps [simp del]

text \<open>
  \<open>s.replace(old, new)\<close>: every leftmost, non-overlapping occurrence of \<open>old\<close> becomes
  \<open>new\<close>; with an empty \<open>old\<close>, \<open>new\<close> goes before every character and at the end.
\<close>

function str_replace :: "string \<Rightarrow> string \<Rightarrow> string \<Rightarrow> string" where
  "str_replace s old new =
     (if old = [] then new @ concat (map (\<lambda>c. c # new) s)
      else (let i = str_find s old
            in if i < 0 then s
               else take (nat i) s @ new @ str_replace (drop (nat i + length old) s) old new))"
  by pat_completeness auto
termination
proof (relation "measure (\<lambda>(s, old, new). length s)", goal_cases)
  case 1
  show ?case by simp
next
  case (2 s old new i)
  have fits: "0 \<le> str_find t old \<Longrightarrow> nat (str_find t old) + length old \<le> length t" for t
  proof (induction t)
    case Nil
    then show ?case by (simp split: if_splits)
  next
    case (Cons c cs)
    show ?case
    proof (cases "startswith (c # cs) old")
      case True
      then have "length (take (length old) (c # cs)) = length old"
        by (simp add: startswith_def)
      then have "length old \<le> length (c # cs)" by simp
      with True show ?thesis by simp
    next
      case False
      with Cons.prems have "0 \<le> str_find cs old"
        by (simp add: Let_def split: if_splits)
      with Cons.IH False show ?thesis
        by (simp add: Let_def nat_add_distrib)
    qed
  qed
  from 2 have "0 \<le> str_find s old" and "old \<noteq> []" by auto
  from fits [OF this(1)] this(2) show ?case
    using 2 by (cases old) auto
qed

declare str_replace.simps [simp del]

text \<open>\<open>c.isspace()\<close> for a code point below 256, and \<open>s.strip()\<close>.\<close>

definition isspace :: "char \<Rightarrow> bool" where
  "isspace c = (let k = (of_char c :: nat)
                in (9 \<le> k \<and> k \<le> 13) \<or> (28 \<le> k \<and> k \<le> 32) \<or> k = 133 \<or> k = 160)"

definition strip :: "string \<Rightarrow> string" where
  "strip s = rev (dropWhile isspace (rev (dropWhile isspace s)))"

text \<open>\<open>s.split()\<close> without a separator: the maximal runs of characters that are not white space.\<close>

fun split_whitespace :: "string \<Rightarrow> string \<Rightarrow> string list" where
  "split_whitespace cur [] = (if cur = [] then [] else [cur])"
| "split_whitespace cur (c # cs) =
     (if isspace c then (if cur = [] then split_whitespace [] cs else cur # split_whitespace [] cs)
      else split_whitespace (cur @ [c]) cs)"

definition str_split :: "string \<Rightarrow> string option \<Rightarrow> error + string list" where
  "str_split s sep =
     (case sep of
        None \<Rightarrow> Inr (split_whitespace [] s)
      | Some p \<Rightarrow> if p = [] then Inl ValueError else Inr (split_on s p))"

text \<open>\<open>str(n)\<close> for an integer.\<close>

fun str_nat :: "nat \<Rightarrow> string" where
  "str_nat n = (if n < 10 then [char_of (48 + n)] else str_nat (n div 10) @ [char_of (48 + n mod 10)])"

declare str_nat.simps [simp del]

definition str_int :: "int \<Rightarrow> string" where
  "str_int i = (if i < 0 then CHR ''-'' # str_nat (nat (- i)) else str_nat (nat i))"

section \<open>Conversation templates (\<open>examples/graphgpt/nc_ft.py\<close>)\<close>

datatype SeparatorStyle = SINGLE | TWO | MPT

text \<open>
  The field \<open>sep_style\<close> holds a Python object: a member of the enumeration, or anything
  else (kept by its \<open>repr\<close>), which \<open>get_prompt\<close> rejects.
\<close>

datatype style_value = Member SeparatorStyle | Foreign string

text \<open>
  A message is \<open>None\<close>, a string, or a tuple \<open>(text, image, image_process_mode)\<close>; the
  image is kept by name. \<open>truthy\<close> is Python's truth value of the message.
\<close>

datatype message = MNone | MStr string | MTuple string string string

fun truthy :: "message \<Rightarrow> bool" where
  "truthy MNone = False"
| "truthy (MStr s) = (s \<noteq> [])"
| "truthy (MTuple s img mode) = True"

fun message_text :: "message \<Rightarrow> string" where
  "message_text MNone = []"
| "message_text (MStr s) = s"
| "message_text (MTuple s img mode) = s"

text \<open>
  The dataclass. \<open>'m\<close> is what the field \<open>messages\<close> holds: the list of turns itself
  where only its value matters, or the address of the list where sharing matters.
\<close>

record 'm conversation_lib =
  system :: string
  roles :: "string list"
  messages :: 'm
  offset :: int
  sep_style :: style_value
  sep :: string
  sep2 :: "string option"
  version :: string
  skip_next :: bool

type_synonym turns = "(string \<times> message) list"

fun get_prompt_single :: "string \<Rightarrow> string \<Rightarrow> turns \<Rightarrow> string" where
  "get_prompt_single sp ret [] = ret"
| "get_prompt_single sp ret ((role, m) # ms) =
     get_prompt_single sp
       (if truthy m then ret @ role @ '': '' @ message_text m @ sp else ret @ role @ '':'') ms"

text \<open>
  \<open>seps = [self.sep, self.sep2]\<close>; \<open>seps[i % 2]\<close> is \<open>sep2\<close> at odd \<open>i\<close>, and adding
  \<open>None\<close> to a string raises TypeError.
\<close>

fun get_prompt_two :: "string \<Rightarrow> string option \<Rightarrow> nat \<Rightarrow> string \<Rightarrow> turns \<Rightarrow> error + string" where
  "get_prompt_two sp sp2 i ret [] = Inr ret"
| "get_prompt_two sp sp2 i ret ((role, m) # ms) =
     (if truthy m then
        (if i mod 2 = 0 then get_prompt_two sp sp2 (Suc i) (ret @ role @ '': '' @ message_text m @ sp) ms
         else (case sp2 of
                 None \<Rightarrow> Inl TypeError
               | Some s2 \<Rightarrow> get_prompt_two sp sp2 (Suc i) (ret @ role @ '': '' @ message_text m @ s2) ms))
      else get_prompt_two sp sp2 (Suc i) (ret @ role @ '':'') ms)"

fun get_prompt_mpt :: "string \<Rightarrow> string \<Rightarrow> turns \<Rightarrow> string" where
  "get_prompt_mpt sp ret [] = ret"
| "get_prompt_mpt sp ret ((role, m) # ms) =
     get_prompt_mpt sp (if truthy m then ret @ role @ message_text m @ sp else ret @ role) ms"

definition get_prompt :: "turns conversation_lib \<Rightarrow> error + string" where
  "get_prompt self =
     (case sep_style self of
        Member SINGLE \<Rightarrow> Inr (get_prompt_single (sep self) (system self @ sep self) (messages self))
      | Member TWO \<Rightarrow> get_prompt_two (sep self) (sep2 self) 0 (system self @ sep self) (messages self)
      | Member MPT \<Rightarrow> Inr (get_prompt_mpt (sep self) (system self @ sep self) (messages self))
      | Foreign other \<Rightarrow> Inl ValueError)"

definition append_message :: "turns conversation_lib \<Rightarrow> string \<Rightarrow> message \<Rightarrow> turns conversation_lib" where
  "append_message self role m = self\<lparr>messages := messages self @ [(role, m)]\<rparr>"

text \<open>
  \<open>copy\<close> passes seven fields to the constructor; \<open>version\<close> and \<open>skip_next\<close> are not
  among them and take the dataclass defaults. \<open>copy_value\<close> is \<open>copy\<close> on the value of the
  conversation.
\<close>

definition copy_value :: "turns conversation_lib \<Rightarrow> turns conversation_lib" where
  "copy_value self =
     \<lparr>system = system self, roles = roles self, messages = map (\<lambda>(x, y). (x, y)) (messages self),
      offset = offset self, sep_style = sep_style self, sep = sep self, sep2 = sep2 self,
      version = ''Unknown'', skip_next = False\<rparr>"

text \<open>
  \<open>copy\<close> on objects: the heap maps the address of a list to its elements, \<open>fresh\<close> is the
  next address never handed out. The comprehension builds a new list at a new address;
  \<open>roles\<close> is passed on as it is.
\<close>

record heap =
  cells :: "nat \<Rightarrow> turns"
  fresh :: nat

definition copy :: "heap \<Rightarrow> nat conversation_lib \<Rightarrow> nat conversation_lib \<times> heap" where
  "copy h self =
     (let a = fresh h;
          h' = h\<lparr>cells := (cells h)(a := map (\<lambda>(x, y). (x, y)) (cells h (messages self))),
                fresh := Suc a\<rparr>
      in (\<lparr>system = system self, roles = roles self, messages = a,
           offset = offset self, sep_style = sep_style self, sep = sep self, sep2 = sep2 self,
           version = ''Unknown'', skip_next = False\<rparr>, h'))"

text \<open>The value of a conversation object: its \<open>messages\<close> read from the heap.\<close>

definition load :: "heap \<Rightarrow> nat conversation_lib \<Rightarrow> turns conversation_lib" where
  "load h c =
     \<lparr>system = system c, roles = roles c, messages = cells h (messages c),
      offset = offset c, sep_style = sep_style c, sep = sep c, sep2 = sep2 c,
      version = version c, skip_next = skip_next c\<rparr>"

text \<open>
  The functions below reach the default conversation and the enumeration through the
  class: \<open>conversation_lib.default_conversation\<close> and \<open>conversation_lib.SeparatorStyle\<close>.
  The dataclass has neither attribute; the one assignment of the script, in \<open>train\<close>,
  reads \<open>conversation_lib.conv_templates\<close> first and raises there. So what the two names
  are bound to is part of the state a call starts from: \<open>default_conversation\<close> is the
  conversation bound to the first name, if any, and \<open>SeparatorStyle_bound\<close> says whether
  the second is bound to the enumeration of the script. Reading a name that is not
  bound raises AttributeError. \<open>as_written\<close> is the class as the script leaves it,
  \<open>bound_to\<close> the class once a caller has bound both names.
\<close>

record class_attributes =
  default_conversation :: "turns conversation_lib option"
  SeparatorStyle_bound :: bool

definition as_written :: class_attributes where
  "as_written = \<lparr>default_conversation = None, SeparatorStyle_bound = False\<rparr>"


text \<open>Non-overlapping occurrences of a non-empty separator, as \<open>split\<close> finds them.\<close>

definition count_occurrences :: "string \<Rightarrow> string \<Rightarrow> nat" where
  "count_occurrences s sp = length (split_on s sp) - 1"

section \<open>Graph token expansion\<close>

definition DEFAULT_GRAPH_TOKEN :: string where "DEFAULT_GRAPH_TOKEN = ''<graph>''"
definition DEFAULT_GRAPH_PATCH_TOKEN :: string where "DEFAULT_GRAPH_PATCH_TOKEN = ''<g_patch>''"
definition DEFAULT_G_START_TOKEN :: string where "DEFAULT_G_START_TOKEN = ''<g_start>''"
definition DEFAULT_G_END_TOKEN :: string where "DEFAULT_G_END_TOKEN = ''<g_end>''"

text \<open>One turn of a conversation record: the dict with the keys \<open>from\<close> and \<open>value\<close>.\<close>

record sentence =
  sfrom :: string
  svalue :: string

text \<open>The entries of \<open>graph_cfg\<close> that the expansion reads.\<close>

record graph_cfg =
  is_graph :: bool
  sep_graph_conv_front :: bool
  use_graph_start_end :: bool

text \<open>\<open>s * n\<close>: a count below one gives the empty string.\<close>

definition str_times :: "string \<Rightarrow> int \<Rightarrow> string" where
  "str_times s n = concat (replicate (nat n) s)"

definition replace_token :: "graph_cfg \<Rightarrow> int \<Rightarrow> string" where
  "replace_token cfg graph_token_len =
     (let r = str_times DEFAULT_GRAPH_PATCH_TOKEN graph_token_len
      in if use_graph_start_end cfg then DEFAULT_G_START_TOKEN @ r @ DEFAULT_G_END_TOKEN else r)"

fun map_err :: "('a \<Rightarrow> error + 'b) \<Rightarrow> 'a list \<Rightarrow> error + 'b list" where
  "map_err f [] = Inr []"
| "map_err f (x # xs) = bind_err (f x) (\<lambda>y. bind_err (map_err f xs) (\<lambda>ys. Inr (y # ys)))"

text \<open>
  The branch \<open>sep_graph_conv_front\<close>, the same in both functions: the first turn loses its
  markers and its outer white space and gets the marker, the separator and the first role
  name of the default conversation in front; these are read through
  \<open>conversation_lib.default_conversation\<close>, after the assertion.
\<close>

definition graph_conv_front :: "class_attributes \<Rightarrow> sentence list \<Rightarrow> error + sentence list" where
  "graph_conv_front cls source =
     (case source of
        [] \<Rightarrow> Inl IndexError
      | s0 # rest \<Rightarrow>
          if \<not> contains (svalue s0) DEFAULT_GRAPH_TOKEN then Inl AssertionError
          else (let v = strip (str_replace (svalue s0) DEFAULT_GRAPH_TOKEN [])
                in (case default_conversation cls of
                      None \<Rightarrow> Inl AttributeError
                    | Some dc \<Rightarrow>
                        bind_err (getitem (roles dc) 0) (\<lambda>r0.
                          Inr (s0\<lparr>svalue := DEFAULT_GRAPH_TOKEN @ sep dc @ r0 @ '': '' @ v\<rparr> # rest)))))"

definition preprocess_graph_source ::
  "class_attributes \<Rightarrow> graph_cfg \<Rightarrow> int \<Rightarrow> sentence list \<Rightarrow> error + sentence list" where
  "preprocess_graph_source cls cfg graph_token_len source =
     bind_err (if sep_graph_conv_front cfg then graph_conv_front cls source else Inr source)
       (\<lambda>src. Inr (map (\<lambda>s. s\<lparr>svalue :=
                      str_replace (svalue s) DEFAULT_GRAPH_TOKEN (replace_token cfg graph_token_len)\<rparr>) src))"

definition preprocess_graph ::
  "class_attributes \<Rightarrow> sentence list list \<Rightarrow> graph_cfg \<Rightarrow> int \<Rightarrow> error + sentence list list" where
  "preprocess_graph cls sources cfg cur_token_len =
     (if \<not> is_graph cfg then Inr sources
      else map_err (preprocess_graph_source cls cfg cur_token_len) sources)"

text \<open>
  The body of the inner loop of \<open>preprocess_graph_LP\<close> on one turn text: both searches
  are \<open>find\<close> from the start of the current text, and the second result is used as it
  comes, also when it is \<open>-1\<close>.
\<close>

definition replace_first_two :: "string \<Rightarrow> string \<Rightarrow> string \<Rightarrow> string" where
  "replace_first_two v replace_token_1 replace_token_2 =
     (if contains v DEFAULT_GRAPH_TOKEN then
        (let first_index = str_find v DEFAULT_GRAPH_TOKEN;
             v1 = slice v None (Some first_index) @ replace_token_1 @
                  slice v (Some (first_index + int (length DEFAULT_GRAPH_TOKEN))) None;
             second_index = str_find v1 DEFAULT_GRAPH_TOKEN
         in slice v1 None (Some second_index) @ replace_token_2 @
            slice v1 (Some (second_index + int (length DEFAULT_GRAPH_TOKEN))) None)
      else v)"

definition preprocess_graph_LP_source ::
  "class_attributes \<Rightarrow> graph_cfg \<Rightarrow> int \<Rightarrow> int \<Rightarrow> sentence list \<Rightarrow> error + sentence list" where
  "preprocess_graph_LP_source cls cfg graph_token_len_1 graph_token_len_2 source =
     bind_err (if sep_graph_conv_front cfg then graph_conv_front cls source else Inr source)
       (\<lambda>src. Inr (map (\<lambda>s. s\<lparr>svalue :=
                      replace_first_two (svalue s) (replace_token cfg graph_token_len_1)
                        (replace_token cfg graph_token_len_2)\<rparr>) src))"

definition preprocess_graph_LP ::
  "class_attributes \<Rightarrow> sentence list list \<Rightarrow> graph_cfg \<Rightarrow> int \<Rightarrow> int \<Rightarrow> error + sentence list list" where
  "preprocess_graph_LP cls sources cfg cur_token_len_1 cur_token_len_2 =
     (if \<not> is_graph cfg then Inr sources
      else map_err (preprocess_graph_LP_source cls cfg cur_token_len_1 cur_token_len_2) sources)"

text \<open>
  A text in which every \<open><\<close> is followed by \<open>g_\<close>, as in the patch, start and end
  tokens: no marker \<open><graph>\<close> begins inside it.
\<close>

fun patch_like :: "string \<Rightarrow> bool" where
  "patch_like [] = True"
| "patch_like (c # cs) = ((c = CHR ''<'' \<longrightarrow> take 2 cs = ''g_'') \<and> patch_like cs)"

text \<open>The text with every marker taken out and nothing put in its place.\<close>

definition remove_markers :: "string \<Rightarrow> string" where
  "remove_markers v = concat (split_on v DEFAULT_GRAPH_TOKEN)"

section \<open>Label masking\<close>

definition IGNORE_INDEX :: int where "IGNORE_INDEX = - 100"

text \<open>
  The tokenizer belongs to an external library and is a parameter: \<open>encode\<close> is
  \<open>tokenizer(text).input_ids\<close> for one string. Token ids are indices into the vocabulary.
\<close>

record tokenizer =
  encode :: "string \<Rightarrow> nat list"
  pad_token_id :: nat
  model_max_length :: nat

text \<open>
  The batch call with \<open>padding="longest"\<close>, \<open>truncation=True\<close> and
  \<open>max_length=model_max_length\<close>: every row is cut to \<open>model_max_length\<close> ids and filled
  with the pad id up to the longest row, both on the right (\<open>train\<close> loads the tokenizer
  with \<open>padding_side="right"\<close>). The library refuses a batch without texts with a
  ValueError.
\<close>

definition batch_rows :: "tokenizer \<Rightarrow> string list \<Rightarrow> int list list" where
  "batch_rows tok texts =
     (let rows = map (\<lambda>t. take (model_max_length tok) (encode tok t)) texts;
          width = fold max (map length rows) 0
      in map (\<lambda>r. map int r @ replicate (width - length r) (int (pad_token_id tok))) rows)"

definition tokenize_batch :: "tokenizer \<Rightarrow> string list \<Rightarrow> error + int list list" where
  "tokenize_batch tok texts = (if texts = [] then Inl ValueError else Inr (batch_rows tok texts))"

text \<open>\<open>roles = {"human": conv.roles[0], "gpt": conv.roles[1]}\<close> and its lookup.\<close>

definition role_of :: "string \<Rightarrow> string \<Rightarrow> string \<Rightarrow> error + string" where
  "role_of r0 r1 k = (if k = ''human'' then Inr r0 else if k = ''gpt'' then Inr r1 else Inl KeyError)"

fun append_turns ::
  "turns conversation_lib \<Rightarrow> string \<Rightarrow> string \<Rightarrow> nat \<Rightarrow> sentence list \<Rightarrow> error + turns conversation_lib" where
  "append_turns conv r0 r1 j [] = Inr conv"
| "append_turns conv r0 r1 j (s # ss) =
     bind_err (role_of r0 r1 (sfrom s)) (\<lambda>role.
     bind_err (getitem (roles conv) (int (j mod 2))) (\<lambda>expected.
       if role \<noteq> expected then Inl AssertionError
       else append_turns (append_message conv role (MStr (svalue s))) r0 r1 (Suc j) ss))"

text \<open>
  One pass of the template loop: drop a first turn that is not the human's, start from
  an empty message list, append every turn, render.
\<close>

definition render_source ::
  "turns conversation_lib \<Rightarrow> string \<Rightarrow> string \<Rightarrow> sentence list \<Rightarrow> error + string" where
  "render_source conv r0 r1 source =
     (case source of
        [] \<Rightarrow> Inl IndexError
      | s0 # rest \<Rightarrow>
          bind_err (role_of r0 r1 (sfrom s0)) (\<lambda>first_role.
          bind_err (getitem (roles conv) 0) (\<lambda>c0.
          bind_err (append_turns (conv\<lparr>messages := []\<rparr>) r0 r1 0
                      (if first_role \<noteq> c0 then rest else source)) get_prompt)))"

text \<open>
  The two lengths the loop over the rounds takes from the tokenizer: the tokens of the
  round, and the tokens of its instruction part (\<open>parts[0] + sep\<close>) less two.
\<close>

definition round_len :: "tokenizer \<Rightarrow> string \<Rightarrow> int" where
  "round_len tok rou = int (length (encode tok rou))"

definition instruction_len :: "tokenizer \<Rightarrow> string \<Rightarrow> string \<Rightarrow> int" where
  "instruction_len tok sp rou = int (length (encode tok (hd (split_on rou sp) @ sp))) - 2"

text \<open>
  The loop over the rounds of one conversation. It returns the cursor \<open>cur_len\<close> and the
  target row; it stops at an empty round and at a round that does not split in two.
\<close>

fun mask_rounds :: "tokenizer \<Rightarrow> string \<Rightarrow> string list \<Rightarrow> int \<Rightarrow> int list \<Rightarrow> int \<times> int list" where
  "mask_rounds tok sp [] cur_len target = (cur_len, target)"
| "mask_rounds tok sp (rou # rounds) cur_len target =
     (if rou = [] then (cur_len, target)
      else if length (split_on rou sp) \<noteq> 2 then (cur_len, target)
      else mask_rounds tok sp rounds (cur_len + round_len tok rou)
             (slice_fill target (Some cur_len) (Some (cur_len + instruction_len tok sp rou))
                IGNORE_INDEX))"

text \<open>\<open>int(target.ne(tokenizer.pad_token_id).sum())\<close>.\<close>

definition count_non_pad :: "tokenizer \<Rightarrow> int list \<Rightarrow> int" where
  "count_non_pad tok target = int (length (filter (\<lambda>t. t \<noteq> int (pad_token_id tok)) target))"

text \<open>The cursor after the rounds of one conversation, and the row as the rounds leave it.\<close>

definition masked :: "tokenizer \<Rightarrow> string \<Rightarrow> string list \<Rightarrow> int list \<Rightarrow> int \<times> int list" where
  "masked tok sp rounds target =
     (case mask_rounds tok sp rounds 1 (slice_fill target None (Some 1) IGNORE_INDEX) of
        (cur_len, t) \<Rightarrow> (cur_len, slice_fill t (Some cur_len) None IGNORE_INDEX))"

definition mismatch_warning :: "int \<Rightarrow> int \<Rightarrow> string" where
  "mismatch_warning cur_len total_len =
     ''WARNING: tokenization mismatch: '' @ str_int cur_len @ '' vs. '' @ str_int total_len @ ''. (ignored)''"

text \<open>
  The body of the loop over the examples once the conversation is split into rounds:
  the new row of \<open>targets\<close> and the lines printed.
\<close>

definition mask_example :: "tokenizer \<Rightarrow> string \<Rightarrow> string list \<Rightarrow> int list \<Rightarrow> int list \<times> string list" where
  "mask_example tok sp rounds target =
     (let total_len = count_non_pad tok target
      in (case masked tok sp rounds target of
            (cur_len, t) \<Rightarrow>
              if cur_len < int (model_max_length tok) \<and> cur_len \<noteq> total_len
              then (slice_fill t None None IGNORE_INDEX, [mismatch_warning cur_len total_len])
              else (t, [])))"

text \<open>
  \<open>for conversation, target in zip(conversations, targets)\<close>: the rows of \<open>targets\<close> are
  updated in place, one per conversation; \<open>conversation.split(conv.sep2)\<close> is the one
  step of the body that can raise.
\<close>

fun mask_targets ::
  "tokenizer \<Rightarrow> string \<Rightarrow> string option \<Rightarrow> nat \<Rightarrow> string list \<Rightarrow> int list list \<Rightarrow> string list \<Rightarrow>
   error + (int list list \<times> string list)" where
  "mask_targets tok sp sp2 i [] targets out = Inr (targets, out)"
| "mask_targets tok sp sp2 i (conversation # rest) targets out =
     (if length targets \<le> i then Inr (targets, out)
      else bind_err (str_split conversation sp2) (\<lambda>rounds.
             (case mask_example tok sp rounds (targets ! i) of
                (t, lines) \<Rightarrow> mask_targets tok sp sp2 (Suc i) rest (targets[i := t]) (out @ lines))))"






definition tiny_source :: "sentence list" where
  "tiny_source = [\<lparr>sfrom = ''human'', svalue = ''hi''\<rparr>, \<lparr>sfrom = ''gpt'', svalue = ''yo''\<rparr>]"


text \<open>A conversation record of two rounds.\<close>

definition long_source :: "sentence list" where
  "long_source = [\<lparr>sfrom = ''human'', svalue = ''a''\<rparr>, \<lparr>sfrom = ''gpt'', svalue = ''b''\<rparr>,
                  \<lparr>sfrom = ''human'', svalue = ''c''\<rparr>, \<lparr>sfrom = ''gpt'', svalue = ''d''\<rparr>]"

record data_dict =
  input_ids :: "int list list"
  labels :: "int list list"
  printed :: "string list"

text \<open>
  \<open>preprocess_v1\<close>. Its first statement reads \<open>conversation_lib.default_conversation\<close>,
  and the assertion after the batch call reads \<open>conversation_lib.SeparatorStyle\<close>; each
  raises AttributeError when the name is not bound. \<open>printed\<close> collects what the call
  writes to standard output.
\<close>

definition preprocess_v1 ::
  "class_attributes \<Rightarrow> sentence list list \<Rightarrow> tokenizer \<Rightarrow> error + data_dict" where
  "preprocess_v1 cls sources tok =
     (case default_conversation cls of
        None \<Rightarrow> Inl AttributeError
      | Some dc \<Rightarrow>
          (let conv = copy_value dc
           in bind_err (getitem (roles conv) 0) (\<lambda>r0.
              bind_err (getitem (roles conv) 1) (\<lambda>r1.
              bind_err (map_err (render_source conv r0 r1) sources) (\<lambda>conversations.
              bind_err (tokenize_batch tok conversations) (\<lambda>ids.
                if \<not> SeparatorStyle_bound cls then Inl AttributeError
                else if sep_style conv \<noteq> Member TWO then Inl AssertionError
                else bind_err (mask_targets tok (sep conv @ r1 @ '': '') (sep2 conv) 0 conversations ids [])
                       (\<lambda>(targets, out). Inr \<lparr>input_ids = ids, labels = targets, printed = out\<rparr>)))))))"

section \<open>Datasets\<close>

text \<open>A dataset index is an integer or a slice; \<open>xs[i]\<close> gives one element or a list.\<close>

datatype index = IntIndex int | SliceIndex "int option" "int option"

datatype 'a selection = One 'a | Many "'a list"

definition select :: "'a list \<Rightarrow> index \<Rightarrow> error + 'a selection" where
  "select xs i =
     (case i of
        IntIndex k \<Rightarrow> bind_err (getitem xs k) (\<lambda>x. Inr (One x))
      | SliceIndex a b \<Rightarrow> Inr (Many (slice xs a b)))"

text \<open>\<open>SupervisedDataset\<close>: the two tensors made at construction, and \<open>__getitem__\<close>.\<close>

record SupervisedDataset =
  ds_input_ids :: "int list list"
  ds_labels :: "int list list"

definition SupervisedDataset_getitem ::
  "SupervisedDataset \<Rightarrow> index \<Rightarrow> error + (int list selection \<times> int list selection)" where
  "SupervisedDataset_getitem self i =
     bind_err (select (ds_input_ids self) i) (\<lambda>a.
     bind_err (select (ds_labels self) i) (\<lambda>b. Inr (a, b)))"

text \<open>
  \<open>LazySupervisedDataset.__getitem__\<close> from its first statement to the computation of
  \<open>task_type\<close>: the record is read, wrapped in a list when the index is an integer, the
  length is asserted, and the id of \<open>list_data_dict[i]\<close> is read (a list, which a slice
  gives, has no key \<open>'id'\<close>).
\<close>

record example =
  example_id :: string
  example_conversations :: "sentence list"

definition LazySupervisedDataset_getitem_sources :: "example list \<Rightarrow> index \<Rightarrow> error + example list" where
  "LazySupervisedDataset_getitem_sources list_data_dict i =
     bind_err (select list_data_dict i) (\<lambda>r.
       (let sources = (case r of One x \<Rightarrow> [x] | Many xs \<Rightarrow> xs)
        in if length sources \<noteq> 1 then Inl AssertionError else Inr sources))"

definition LazySupervisedDataset_getitem_task_type ::
  "example list \<Rightarrow> index \<Rightarrow> error + (example list \<times> string)" where
  "LazySupervisedDataset_getitem_task_type list_data_dict i =
     bind_err (LazySupervisedDataset_getitem_sources list_data_dict i) (\<lambda>sources.
     bind_err (select list_data_dict i) (\<lambda>r.
       (case r of
          Many xs \<Rightarrow> Inl TypeError
        | One x \<Rightarrow> Inr (sources, last (split_on (example_id x) ''_'')))))"

section \<open>The single-graph container (\<open>examples/sgformer/lp_ft.py\<close>)\<close>

record ('g, 'l) NCDataset =
  name :: string
  graph :: 'g
  label :: 'l

definition NCDataset_len :: "('g, 'l) NCDataset \<Rightarrow> nat" where
  "NCDataset_len self = 1"

text \<open>\<open>__getitem__\<close> returns its result and the dataset as the call leaves it.\<close>

definition NCDataset_getitem ::
  "('g, 'l) NCDataset \<Rightarrow> int \<Rightarrow> error + (('g \<times> 'l) \<times> ('g, 'l) NCDataset)" where
  "NCDataset_getitem self idx =
     (if idx \<noteq> 0 then Inl AssertionError else Inr ((graph self, label self), self))"

section \<open>Rendering a conversation\<close>

lemma get_prompt_two_Some:
  "\<exists>p. get_prompt_two sp (Some s2) i ret ms = Inr p"
  by (induction ms arbitrary: i ret) auto

lemma get_prompt_two_None:
  "get_prompt_two sp None i ret ms = Inl TypeError \<or> (\<exists>p. get_prompt_two sp None i ret ms = Inr p)"
proof (induction ms arbitrary: i ret)
  case Nil
  show ?case by simp
next
  case (Cons t ms)
  obtain role m where t: "t = (role, m)" by (cases t)
  show ?case
    unfolding t by (cases "truthy m"; cases "i mod 2 = 0"; simp add: Cons.IH)
qed

lemma get_prompt_two_None_iff:
  "(get_prompt_two sp None i ret ms = Inl TypeError) =
   (\<exists>k < length ms. odd (i + k) \<and> truthy (snd (ms ! k)))"
proof (induction ms arbitrary: i ret)
  case Nil
  show ?case by simp
next
  case (Cons t ms)
  obtain role m where t: "t = (role, m)" by (cases t)
  have shift: "(\<exists>k < length (t # ms). odd (i + k) \<and> truthy (snd ((t # ms) ! k))) =
        ((odd i \<and> truthy m) \<or> (\<exists>k < length ms. odd (Suc i + k) \<and> truthy (snd (ms ! k))))"
    (is "?L = ?R")
  proof
    assume ?L
    then obtain k where k: "k < length (t # ms)" "odd (i + k)" "truthy (snd ((t # ms) ! k))" by blast
    show ?R
    proof (cases k)
      case 0
      with k t show ?thesis by simp
    next
      case (Suc j)
      with k have "j < length ms \<and> odd (Suc i + j) \<and> truthy (snd (ms ! j))" by simp
      then show ?thesis by blast
    qed
  next
    assume ?R
    then show ?L
    proof
      assume "odd i \<and> truthy m"
      then have "0 < length (t # ms) \<and> odd (i + 0) \<and> truthy (snd ((t # ms) ! 0))" using t by simp
      then show ?L by blast
    next
      assume "\<exists>k < length ms. odd (Suc i + k) \<and> truthy (snd (ms ! k))"
      then obtain j where "j < length ms" "odd (Suc i + j)" "truthy (snd (ms ! j))" by blast
      then have "Suc j < length (t # ms) \<and> odd (i + Suc j) \<and> truthy (snd ((t # ms) ! Suc j))" by simp
      then show ?L by blast
    qed
  qed
  show ?case
    unfolding shift using Cons.IH t by (auto simp: even_iff_mod_2_eq_zero)
qed

text \<open>
  C4, as the specification has it: the two turns \<open>hi\<close> and \<open>hello\<close> under the style
  \<open>TWO\<close> with \<open>sep = " "\<close> and \<open>sep2 = "</s>"\<close> would give a prompt with \<open></s>\<close> after
  each turn. The function ends the first turn with \<open>sep\<close>, not with \<open>sep2\<close>.
\<close>

theorem get_prompt_two_turns_counterexample:
  "get_prompt \<lparr>system = ''<system>'', roles = [''human'', ''gpt''],
      messages = [(''human'', MStr ''hi''), (''gpt'', MStr ''hello'')], offset = 0,
      sep_style = Member TWO, sep = '' '', sep2 = Some ''</s>'',
      version = ''Unknown'', skip_next = False\<rparr>
   \<noteq> Inr ''<system> human: hi </s>gpt: hello</s>''"
  by (simp add: get_prompt_def)

text \<open>
  C4, amended: for any two role names, the prompt is the system text, a blank, the
  first turn closed by the blank \<open>sep\<close> and the second turn closed by \<open></s>\<close>; with the
  roles \<open>human\<close> and \<open>gpt\<close> it is \<open><system> human: hi gpt: hello</s>\<close>.
\<close>

theorem get_prompt_two_turns:
  "get_prompt \<lparr>system = ''<system>'', roles = [r0, r1],
      messages = [(r0, MStr ''hi''), (r1, MStr ''hello'')], offset = k,
      sep_style = Member TWO, sep = '' '', sep2 = Some ''</s>'',
      version = v, skip_next = b\<rparr>
   = Inr (''<system> '' @ r0 @ '': hi '' @ r1 @ '': hello</s>'')"
  by (simp add: get_prompt_def)

text \<open>
  C7, as the specification has it, asks for a prompt for every conversation of style
  \<open>TWO\<close>. With \<open>sep2\<close> left at its default \<open>None\<close>, the second non-empty turn raises
  TypeError.
\<close>

theorem get_prompt_styles_counterexample:
  "sep_style \<lparr>system = ''S'', roles = [''USER'', ''GPT''],
      messages = [(''USER'', MStr ''hi''), (''GPT'', MStr ''yo'')],
      offset = 0, sep_style = Member TWO, sep = '' '', sep2 = None,
      version = ''Unknown'', skip_next = False\<rparr> = Member TWO \<and>
   get_prompt \<lparr>system = ''S'', roles = [''USER'', ''GPT''],
      messages = [(''USER'', MStr ''hi''), (''GPT'', MStr ''yo'')],
      offset = 0, sep_style = Member TWO, sep = '' '', sep2 = None,
      version = ''Unknown'', skip_next = False\<rparr> = Inl TypeError"
  by (simp add: get_prompt_def)

text \<open>
  C7, amended: \<open>get_prompt\<close> returns a prompt for every conversation of style \<open>SINGLE\<close>
  or \<open>MPT\<close>, and of style \<open>TWO\<close> when \<open>sep2\<close> is a string; with style \<open>TWO\<close> and
  \<open>sep2 = None\<close> it returns a prompt or raises TypeError, and raises exactly when a turn
  at an odd position has a non-empty message; for every \<open>sep_style\<close> outside the
  enumeration it raises ValueError.
\<close>

theorem get_prompt_styles:
  "(sep_style c = Member SINGLE \<or> sep_style c = Member MPT \<or>
      (sep_style c = Member TWO \<and> sep2 c \<noteq> None) \<longrightarrow> (\<exists>p. get_prompt c = Inr p)) \<and>
   (sep_style c = Member TWO \<and> sep2 c = None \<longrightarrow>
      ((\<exists>p. get_prompt c = Inr p) \<or> get_prompt c = Inl TypeError) \<and>
      ((get_prompt c = Inl TypeError) =
       (\<exists>k < length (messages c). odd k \<and> truthy (snd (messages c ! k))))) \<and>
   (\<forall>other. sep_style c = Foreign other \<longrightarrow> get_prompt c = Inl ValueError)"
proof (intro conjI impI allI)
  assume "sep_style c = Member SINGLE \<or> sep_style c = Member MPT \<or>
      (sep_style c = Member TWO \<and> sep2 c \<noteq> None)"
  then show "\<exists>p. get_prompt c = Inr p"
    using get_prompt_two_Some [of "sep c" _ 0 "system c @ sep c" "messages c"]
    by (auto simp: get_prompt_def)
next
  assume a: "sep_style c = Member TWO \<and> sep2 c = None"
  then show "(\<exists>p. get_prompt c = Inr p) \<or> get_prompt c = Inl TypeError"
    using get_prompt_two_None [of "sep c" 0 "system c @ sep c" "messages c"]
    by (auto simp: get_prompt_def)
  from a show "(get_prompt c = Inl TypeError) =
       (\<exists>k < length (messages c). odd k \<and> truthy (snd (messages c ! k)))"
    using get_prompt_two_None_iff [of "sep c" 0 "system c @ sep c" "messages c"]
    by (simp add: get_prompt_def)
next
  fix other
  assume "sep_style c = Foreign other"
  then show "get_prompt c = Inl ValueError" by (simp add: get_prompt_def)
qed

text \<open>C7, amended, at a foreign style, at \<open>MPT\<close>, and at \<open>TWO\<close> with and without \<open>sep2\<close>.\<close>

theorem get_prompt_styles_witness:
  "get_prompt \<lparr>system = ''S'', roles = [''USER'', ''GPT''], messages = [(''USER'', MStr ''hi'')],
      offset = 0, sep_style = Foreign ''llama_2'', sep = ''###'', sep2 = None,
      version = ''Unknown'', skip_next = False\<rparr> = Inl ValueError \<and>
   (\<exists>p. get_prompt \<lparr>system = ''S'', roles = [''USER'', ''GPT''], messages = [(''USER'', MStr ''hi'')],
      offset = 0, sep_style = Member MPT, sep = ''###'', sep2 = None,
      version = ''Unknown'', skip_next = False\<rparr> = Inr p) \<and>
   (\<exists>p. get_prompt \<lparr>system = ''S'', roles = [''USER'', ''GPT''],
      messages = [(''USER'', MStr ''hi''), (''GPT'', MStr ''yo'')],
      offset = 0, sep_style = Member TWO, sep = '' '', sep2 = Some ''</s>'',
      version = ''Unknown'', skip_next = False\<rparr> = Inr p) \<and>
   get_prompt \<lparr>system = ''S'', roles = [''USER'', ''GPT''],
      messages = [(''USER'', MStr ''hi''), (''GPT'', MStr ''yo'')],
      offset = 0, sep_style = Member TWO, sep = '' '', sep2 = None,
      version = ''Unknown'', skip_next = False\<rparr> = Inl TypeError"
  using get_prompt_styles [of "\<lparr>system = ''S'', roles = [''USER'', ''GPT''], messages = [(''USER'', MStr ''hi'')],
      offset = 0, sep_style = Foreign ''llama_2'', sep = ''###'', sep2 = None,
      version = ''Unknown'', skip_next = False\<rparr>"]
    get_prompt_styles [of "\<lparr>system = ''S'', roles = [''USER'', ''GPT''], messages = [(''USER'', MStr ''hi'')],
      offset = 0, sep_style = Member MPT, sep = ''###'', sep2 = None,
      version = ''Unknown'', skip_next = False\<rparr>"]
    get_prompt_styles [of "\<lparr>system = ''S'', roles = [''USER'', ''GPT''],
      messages = [(''USER'', MStr ''hi''), (''GPT'', MStr ''yo'')],
      offset = 0, sep_style = Member TWO, sep = '' '', sep2 = Some ''</s>'',
      version = ''Unknown'', skip_next = False\<rparr>"]
    get_prompt_styles [of "\<lparr>system = ''S'', roles = [''USER'', ''GPT''],
      messages = [(''USER'', MStr ''hi''), (''GPT'', MStr ''yo'')],
      offset = 0, sep_style = Member TWO, sep = '' '', sep2 = None,
      version = ''Unknown'', skip_next = False\<rparr>"]
  by (simp add: get_prompt_def)

section \<open>Copying a conversation\<close>

lemma load_copy: "load (snd (copy h self)) (fst (copy h self)) = copy_value (load h self)"
  by (simp add: load_def copy_def copy_value_def Let_def)

text \<open>
  C9: the copy of a conversation object has the system, roles, offset, sep_style, sep and
  sep2 of the original; its message list has the elements of the original's and lives
  at another address, and no list that existed before is changed; its version is
  \<open>Unknown\<close> and its skip_next is \<open>False\<close>, whatever the original's were, so the
  version of the copy differs from any other version the original has.
\<close>

theorem copy_fields:
  assumes "messages self < fresh h"
  shows "(case copy h self of (c, h') \<Rightarrow>
           system c = system self \<and> roles c = roles self \<and> offset c = offset self \<and>
           sep_style c = sep_style self \<and> sep c = sep self \<and> sep2 c = sep2 self \<and>
           cells h' (messages c) = cells h (messages self) \<and>
           messages c \<noteq> messages self \<and> fresh h \<le> messages c \<and>
           (\<forall>a < fresh h. cells h' a = cells h a) \<and>
           version c = ''Unknown'' \<and> skip_next c = False \<and>
           (version self \<noteq> ''Unknown'' \<longrightarrow> version c \<noteq> version self))"
  using assms by (auto simp: copy_def Let_def)

text \<open>
  C9 at a conversation of version \<open>v1\<close> with skip_next set: the copy's version differs
  from the original's, so \<open>copy\<close> does not give back the conversation it was given.
\<close>

theorem copy_fields_witness:
  "messages \<lparr>system = ''S'', roles = [''USER'', ''ASSISTANT''], messages = 0::nat, offset = 0,
      sep_style = Member TWO, sep = '' '', sep2 = Some ''</s>'', version = ''v1'', skip_next = True\<rparr>
     < fresh \<lparr>cells = (\<lambda>a. [])(0 := [(''USER'', MStr ''hi'')]), fresh = 1\<rparr> \<and>
   (case copy \<lparr>cells = (\<lambda>a. [])(0 := [(''USER'', MStr ''hi'')]), fresh = 1\<rparr>
      \<lparr>system = ''S'', roles = [''USER'', ''ASSISTANT''], messages = 0::nat, offset = 0,
       sep_style = Member TWO, sep = '' '', sep2 = Some ''</s>'', version = ''v1'', skip_next = True\<rparr> of
      (c, h') \<Rightarrow> version c = ''Unknown'' \<and> version c \<noteq> ''v1'' \<and> skip_next c = False \<and>
         messages c \<noteq> 0 \<and> cells h' (messages c) = [(''USER'', MStr ''hi'')] \<and>
         cells h' 0 = [(''USER'', MStr ''hi'')])"
  using copy_fields [of "\<lparr>system = ''S'', roles = [''USER'', ''ASSISTANT''], messages = 0::nat, offset = 0,
      sep_style = Member TWO, sep = '' '', sep2 = Some ''</s>'', version = ''v1'', skip_next = True\<rparr>"
      "\<lparr>cells = (\<lambda>a. [])(0 := [(''USER'', MStr ''hi'')]), fresh = 1\<rparr>"]
  by (auto split: prod.splits)

section \<open>The single-graph container\<close>

text \<open>
  C10: \<open>__len__\<close> is 1; \<open>__getitem__(0)\<close> returns the pair of graph and label and leaves
  the dataset as it was; \<open>__getitem__\<close> at any other index raises AssertionError.
\<close>

theorem NCDataset_single_graph:
  "NCDataset_len self = 1 \<and>
   NCDataset_getitem self 0 = Inr ((graph self, label self), self) \<and>
   (idx \<noteq> 0 \<longrightarrow> NCDataset_getitem self idx = Inl AssertionError)"
  by (simp add: NCDataset_len_def NCDataset_getitem_def)

text \<open>C10 at the index 1 and at the index 0 of a small dataset.\<close>

theorem NCDataset_single_graph_witness:
  "(1::int) \<noteq> 0 \<and>
   NCDataset_getitem \<lparr>name = ''ogbn-arxiv'', graph = [(0::nat, 1::nat)], label = [3::int, 5]\<rparr> 1
     = Inl AssertionError \<and>
   NCDataset_getitem \<lparr>name = ''ogbn-arxiv'', graph = [(0::nat, 1::nat)], label = [3::int, 5]\<rparr> 0
     = Inr (([(0, 1)], [3, 5]), \<lparr>name = ''ogbn-arxiv'', graph = [(0, 1)], label = [3, 5]\<rparr>)"
  using NCDataset_single_graph [of "\<lparr>name = ''ogbn-arxiv'', graph = [(0::nat, 1::nat)], label = [3::int, 5]\<rparr>" 1]
  by simp

section \<open>Searching and splitting\<close>

lemma startswith_Nil [simp]: "startswith s []"
  by (simp add: startswith_def)

lemma startswith_self_append: "startswith (p @ r) p"
  by (simp add: startswith_def)

lemma startswith_Cons:
  "startswith (c # cs) (d # ds) = (c = d \<and> startswith cs ds)"
  by (auto simp: startswith_def)

lemma str_find_range: "- 1 \<le> str_find s sub \<and> str_find s sub \<le> int (length s)"
  by (induction s) (auto simp: Let_def)

lemma str_find_neg_iff: "(str_find s sub < 0) = (str_find s sub = - 1)"
  using str_find_range [of s sub] by auto

lemma str_find_self_append: "str_find (p @ r) p = 0"
proof (cases "p @ r")
  case Nil
  then show ?thesis by simp
next
  case (Cons c cs)
  have "startswith (c # cs) p" using startswith_self_append [of p r] Cons by simp
  then show ?thesis using Cons by simp
qed

text \<open>A separator whose first character does not occur in the text before it.\<close>

lemma str_find_clean_prefix:
  assumes "sp \<noteq> []" "hd sp \<notin> set p"
  shows "str_find (p @ sp @ r) sp = int (length p)"
  using assms
proof (induction p)
  case Nil
  then show ?case by (simp add: str_find_self_append)
next
  case (Cons c p)
  obtain d ds where sp: "sp = d # ds" using Cons.prems(1) by (cases sp) auto
  with Cons.prems have "c \<noteq> d" by auto
  then have "\<not> startswith (c # p @ sp @ r) sp" by (simp add: sp startswith_Cons)
  moreover have "str_find (p @ sp @ r) sp = int (length p)" using Cons by simp
  ultimately show ?case by (simp add: Let_def)
qed

lemma str_find_clean:
  assumes "sp \<noteq> []" "hd sp \<notin> set p"
  shows "str_find p sp = - 1"
  using assms
proof (induction p)
  case Nil
  then show ?case by simp
next
  case (Cons c p)
  obtain d ds where sp: "sp = d # ds" using Cons.prems(1) by (cases sp) auto
  with Cons.prems have "c \<noteq> d" by auto
  then have "\<not> startswith (c # p) sp" by (simp add: sp startswith_Cons)
  moreover have "str_find p sp = - 1" using Cons by simp
  ultimately show ?case by (simp add: Let_def)
qed

lemma split_on_clean_prefix:
  assumes "sp \<noteq> []" "hd sp \<notin> set p"
  shows "split_on (p @ sp @ r) sp = p # split_on r sp"
  using assms str_find_clean_prefix [OF assms, of r]
  by (subst split_on.simps) (simp add: Let_def)

lemma split_on_clean:
  assumes "sp \<noteq> []" "hd sp \<notin> set p"
  shows "split_on p sp = [p]"
  using assms str_find_clean [OF assms]
  by (subst split_on.simps) (simp add: Let_def)

lemma get_prompt_single_append:
  "get_prompt_single sp ret ms = ret @ get_prompt_single sp [] ms"
proof (induction ms arbitrary: ret)
  case Nil
  show ?case by simp
next
  case (Cons t ms)
  obtain role m where t: "t = (role, m)" by (cases t)
  define x where "x = (if truthy m then role @ '': '' @ message_text m @ sp else role @ '':'')"
  have "get_prompt_single sp ret (t # ms) = get_prompt_single sp (ret @ x) ms"
    by (simp add: t x_def)
  also have "\<dots> = (ret @ x) @ get_prompt_single sp [] ms" by (rule Cons.IH)
  also have "\<dots> = ret @ get_prompt_single sp x ms" using Cons.IH [of x] by simp
  also have "\<dots> = ret @ get_prompt_single sp [] (t # ms)" by (simp add: t x_def)
  finally show ?case .
qed

lemma get_prompt_single_pieces:
  assumes "sp \<noteq> []" "hd sp \<noteq> CHR '':''" "hd sp \<noteq> CHR '' ''"
    and "\<forall>(role, m) \<in> set ms. hd sp \<notin> set role \<and> hd sp \<notin> set (message_text m)"
    and "hd sp \<notin> set q"
  shows "length (split_on (get_prompt_single sp q ms) sp) = Suc (length (filter (\<lambda>(role, m). truthy m) ms))"
  using assms(4,5)
proof (induction ms arbitrary: q)
  case Nil
  then show ?case using split_on_clean [OF assms(1)] by simp
next
  case (Cons t ms)
  obtain role m where t: "t = (role, m)" by (cases t)
  from Cons.prems(1) t have clean: "hd sp \<notin> set role" "hd sp \<notin> set (message_text m)"
    and rest: "\<forall>(role, m) \<in> set ms. hd sp \<notin> set role \<and> hd sp \<notin> set (message_text m)"
    by auto
  show ?case
  proof (cases "truthy m")
    case True
    have e: "get_prompt_single sp (q @ role @ '': '' @ message_text m @ sp) ms
          = (q @ role @ '': '' @ message_text m) @ sp @ get_prompt_single sp [] ms"
      using get_prompt_single_append [of sp "q @ role @ '': '' @ message_text m @ sp" ms]
      by simp
    have "hd sp \<notin> set (q @ role @ '': '' @ message_text m)"
      using clean Cons.prems(2) assms(2,3) by auto
    then have "split_on (get_prompt_single sp (q @ role @ '': '' @ message_text m @ sp) ms) sp
          = (q @ role @ '': '' @ message_text m) # split_on (get_prompt_single sp [] ms) sp"
      unfolding e by (rule split_on_clean_prefix [OF assms(1)])
    moreover have "length (split_on (get_prompt_single sp [] ms) sp)
          = Suc (length (filter (\<lambda>(role, m). truthy m) ms))"
      using Cons.IH [OF rest, of "[]"] by simp
    ultimately show ?thesis using True t by simp
  next
    case False
    have "hd sp \<notin> set (q @ role @ '':'')"
      using clean Cons.prems(2) assms(2) by auto
    from Cons.IH [OF rest this] False t show ?thesis by simp
  qed
qed

section \<open>Counting separators\<close>

text \<open>
  C5, as the specification has it: \<open>N\<close> turns give \<open>N + 1\<close> separators, a turn with an
  empty message at the end included. Here \<open>N = 2\<close>, the system text and the turn texts
  do not contain \<open>###\<close>, and the prompt \<open>S###Human: hi###Assistant:\<close> has two separators:
  a turn with an empty message adds the role and a colon and no separator. And with the
  separator \<open>:\<close>, which neither \<open>S\<close> nor \<open>hi\<close> contains, the one turn of
  \<open>S:Human: hi:\<close> comes with three separators: the colon after the role name is one.
\<close>

theorem get_prompt_single_count_counterexample:
  "get_prompt \<lparr>system = ''S'', roles = [''Human'', ''Assistant''],
      messages = [(''Human'', MStr ''hi''), (''Assistant'', MStr [])], offset = 0,
      sep_style = Member SINGLE, sep = ''###'', sep2 = None, version = ''Unknown'', skip_next = False\<rparr>
     = Inr ''S###Human: hi###Assistant:'' \<and>
   count_occurrences ''S###Human: hi###Assistant:'' ''###''
     \<noteq> length [(''Human'', MStr ''hi''), (''Assistant'', MStr [])] + 1 \<and>
   \<not> contains ''S'' ''###'' \<and> \<not> contains ''hi'' ''###'' \<and> \<not> contains [] ''###'' \<and>
   get_prompt \<lparr>system = ''S'', roles = [''Human'', ''Assistant''],
      messages = [(''Human'', MStr ''hi'')], offset = 0,
      sep_style = Member SINGLE, sep = '':'', sep2 = None, version = ''Unknown'', skip_next = False\<rparr>
     = Inr ''S:Human: hi:'' \<and>
   count_occurrences ''S:Human: hi:'' '':'' = 3 \<and>
   \<not> contains ''S'' '':'' \<and> \<not> contains ''hi'' '':''"
proof (intro conjI)
  show "get_prompt \<lparr>system = ''S'', roles = [''Human'', ''Assistant''],
      messages = [(''Human'', MStr ''hi''), (''Assistant'', MStr [])], offset = 0,
      sep_style = Member SINGLE, sep = ''###'', sep2 = None, version = ''Unknown'', skip_next = False\<rparr>
     = Inr ''S###Human: hi###Assistant:''"
    by (simp add: get_prompt_def)
  show "count_occurrences ''S###Human: hi###Assistant:'' ''###''
     \<noteq> length [(''Human'', MStr ''hi''), (''Assistant'', MStr [])] + 1"
    by code_simp
  show "\<not> contains ''S'' ''###''" by code_simp
  show "\<not> contains ''hi'' ''###''" by code_simp
  show "\<not> contains [] ''###''" by code_simp
  show "get_prompt \<lparr>system = ''S'', roles = [''Human'', ''Assistant''],
      messages = [(''Human'', MStr ''hi'')], offset = 0,
      sep_style = Member SINGLE, sep = '':'', sep2 = None, version = ''Unknown'', skip_next = False\<rparr>
     = Inr ''S:Human: hi:''"
    by (simp add: get_prompt_def)
  show "count_occurrences ''S:Human: hi:'' '':'' = 3" by code_simp
  show "\<not> contains ''S'' '':''" by code_simp
  show "\<not> contains ''hi'' '':''" by code_simp
qed

text \<open>
  C5, amended: under the style \<open>SINGLE\<close>, when the separator is not empty and its first
  character occurs neither in the system text, nor in a role name, nor in a message
  text, and is neither the colon nor the blank that follow a role name, the prompt has
  one separator for the system text and one for every turn with a non-empty message;
  so \<open>N + 1\<close> when none of the \<open>N\<close> turns has an empty message.
\<close>

theorem get_prompt_single_count:
  assumes "sep_style c = Member SINGLE" and "sep c \<noteq> []"
    and "hd (sep c) \<noteq> CHR '':''" and "hd (sep c) \<noteq> CHR '' ''"
    and "hd (sep c) \<notin> set (system c)"
    and "\<forall>(role, m) \<in> set (messages c). hd (sep c) \<notin> set role \<and> hd (sep c) \<notin> set (message_text m)"
  shows "\<exists>p. get_prompt c = Inr p \<and>
           count_occurrences p (sep c) = 1 + length (filter (\<lambda>(role, m). truthy m) (messages c)) \<and>
           ((\<forall>(role, m) \<in> set (messages c). truthy m) \<longrightarrow>
              count_occurrences p (sep c) = length (messages c) + 1)"
proof -
  let ?p = "get_prompt_single (sep c) (system c @ sep c) (messages c)"
  have p: "get_prompt c = Inr ?p" using assms(1) by (simp add: get_prompt_def)
  have "?p = system c @ sep c @ get_prompt_single (sep c) [] (messages c)"
    using get_prompt_single_append [of "sep c" "system c @ sep c" "messages c"] by simp
  then have "split_on ?p (sep c) = system c # split_on (get_prompt_single (sep c) [] (messages c)) (sep c)"
    using split_on_clean_prefix [OF assms(2,5)] by simp
  moreover have "length (split_on (get_prompt_single (sep c) [] (messages c)) (sep c))
        = Suc (length (filter (\<lambda>(role, m). truthy m) (messages c)))"
    using get_prompt_single_pieces [OF assms(2,3,4,6), of "[]"] by simp
  ultimately have n: "count_occurrences ?p (sep c) = 1 + length (filter (\<lambda>(role, m). truthy m) (messages c))"
    by (simp add: count_occurrences_def)
  have "(\<forall>(role, m) \<in> set (messages c). truthy m) \<longrightarrow>
          filter (\<lambda>(role, m). truthy m) (messages c) = messages c"
    by (auto simp: filter_id_conv)
  with p n show ?thesis by auto
qed

text \<open>C5, amended, at a conversation that ends with an empty turn and at one that does not.\<close>

theorem get_prompt_single_count_witness:
  "(\<exists>p. get_prompt \<lparr>system = ''S'', roles = [''Human'', ''Assistant''],
      messages = [(''Human'', MStr ''hi''), (''Assistant'', MStr [])], offset = 0,
      sep_style = Member SINGLE, sep = ''###'', sep2 = None, version = ''Unknown'', skip_next = False\<rparr>
        = Inr p \<and> count_occurrences p ''###'' = 2) \<and>
   (\<exists>p. get_prompt \<lparr>system = ''S'', roles = [''Human'', ''Assistant''],
      messages = [(''Human'', MStr ''hi''), (''Assistant'', MStr ''yo'')], offset = 0,
      sep_style = Member SINGLE, sep = ''###'', sep2 = None, version = ''Unknown'', skip_next = False\<rparr>
        = Inr p \<and> count_occurrences p ''###'' = 3)"
  using get_prompt_single_count [of "\<lparr>system = ''S'', roles = [''Human'', ''Assistant''],
      messages = [(''Human'', MStr ''hi''), (''Assistant'', MStr [])], offset = 0,
      sep_style = Member SINGLE, sep = ''###'', sep2 = None, version = ''Unknown'', skip_next = False\<rparr>"]
    get_prompt_single_count [of "\<lparr>system = ''S'', roles = [''Human'', ''Assistant''],
      messages = [(''Human'', MStr ''hi''), (''Assistant'', MStr ''yo'')], offset = 0,
      sep_style = Member SINGLE, sep = ''###'', sep2 = None, version = ''Unknown'', skip_next = False\<rparr>"]
  by (simp add: eval_nat_numeral)

section \<open>Graph token expansion: one marker\<close>

lemma map_err_Inr: "map_err (\<lambda>x. Inr (f x)) xs = Inr (map f xs)"
  by (induction xs) (simp_all add: bind_err_def)

lemma str_replace_remove:
  "old \<noteq> [] \<Longrightarrow> str_replace s old [] = concat (split_on s old)"
proof (induction s old rule: split_on.induct)
  case (1 s sep)
  show ?case
  proof (cases "str_find s sep < 0")
    case True
    then show ?thesis
      using 1 by (subst str_replace.simps, subst split_on.simps) (simp add: Let_def)
  next
    case False
    with 1 have "str_replace (drop (nat (str_find s sep) + length sep) s) sep []
        = concat (split_on (drop (nat (str_find s sep) + length sep) s) sep)"
      by simp
    with False 1 show ?thesis
      by (subst str_replace.simps, subst split_on.simps) (simp add: Let_def)
  qed
qed

lemma graph_zero_map:
  assumes "is_graph cfg" "\<not> sep_graph_conv_front cfg" "\<not> use_graph_start_end cfg"
  shows "preprocess_graph cls sources cfg 0
         = Inr (map (map (\<lambda>s. s\<lparr>svalue := remove_markers (svalue s)\<rparr>)) sources)"
proof -
  have r: "replace_token cfg 0 = []"
    using assms(3) by (simp add: replace_token_def str_times_def)
  have "preprocess_graph_source cls cfg 0
        = (\<lambda>src. Inr (map (\<lambda>s. s\<lparr>svalue := remove_markers (svalue s)\<rparr>) src))"
    using assms(2)
    by (auto simp: preprocess_graph_source_def bind_err_def r remove_markers_def
          str_replace_remove DEFAULT_GRAPH_TOKEN_def)
  then show ?thesis
    using assms(1) by (simp add: preprocess_graph_def map_err_Inr)
qed

lemma str_find_decomp:
  "0 \<le> str_find s g \<Longrightarrow>
   s = take (nat (str_find s g)) s @ g @ drop (nat (str_find s g) + length g) s"
proof (induction s)
  case Nil
  then show ?case by (simp split: if_splits)
next
  case (Cons c s)
  show ?case
  proof (cases "startswith (c # s) g")
    case True
    then have "take (length g) (c # s) = g" by (simp add: startswith_def)
    then have "c # s = g @ drop (length g) (c # s)" by (metis append_take_drop_id)
    with True show ?thesis by simp
  next
    case False
    with Cons.prems have nn: "0 \<le> str_find s g" by (simp add: Let_def split: if_splits)
    with False have "str_find (c # s) g = str_find s g + 1" by (simp add: Let_def)
    moreover have "nat (str_find s g + 1) = Suc (nat (str_find s g))" using nn by simp
    ultimately show ?thesis using Cons.IH [OF nn] by simp
  qed
qed

lemma split_on_nonempty: "split_on s g \<noteq> []"
  by (subst split_on.simps) (simp add: Let_def)

lemma count_marker_starts:
  "length (filter (\<lambda>c. c = CHR ''<'') s)
   = length (filter (\<lambda>c. c = CHR ''<'') (concat (split_on s ''<graph>'')))
     + (length (split_on s ''<graph>'') - 1)"
proof (induction s "''<graph>''" rule: split_on.induct)
  case (1 s)
  let ?i = "str_find s ''<graph>''"
  show ?case
  proof (cases "?i < 0")
    case True
    then show ?thesis by (subst (1 2) split_on.simps) (simp add: Let_def)
  next
    case False
    let ?r = "drop (nat ?i + length ''<graph>'') s"
    have IH: "length (filter (\<lambda>c. c = CHR ''<'') ?r)
        = length (filter (\<lambda>c. c = CHR ''<'') (concat (split_on ?r ''<graph>'')))
          + (length (split_on ?r ''<graph>'') - 1)"
      using 1 False by simp
    have sp: "split_on s ''<graph>'' = take (nat ?i) s # split_on ?r ''<graph>''"
      using False by (subst split_on.simps) (simp add: Let_def)
    have "s = take (nat ?i) s @ ''<graph>'' @ ?r"
      using str_find_decomp [of s "''<graph>''"] False by simp
    then have "length (filter (\<lambda>c. c = CHR ''<'') s)
        = length (filter (\<lambda>c. c = CHR ''<'') (take (nat ?i) s @ ''<graph>'' @ ?r))"
      by simp
    also have "\<dots> = length (filter (\<lambda>c. c = CHR ''<'') (take (nat ?i) s)) + 1
          + length (filter (\<lambda>c. c = CHR ''<'') ?r)"
      by simp
    finally show ?thesis
      using IH split_on_nonempty [of ?r "''<graph>''"]
      unfolding sp by (cases "split_on ?r ''<graph>''") simp_all
  qed
qed

lemma contains_hd:
  assumes "g \<noteq> []" "contains s g"
  shows "hd g \<in> set s"
  using str_find_clean [OF assms(1), of s] assms(2) by (auto simp: contains_def)

text \<open>
  C6, as the specification has it: with a count of 0 the result is the input without
  its markers, nothing put in their place, and holds neither marker nor patch token.
  With \<open>use_graph_start_end\<close> set, each marker becomes \<open><g_start><g_end>\<close>; and taking
  the marker out of \<open><gra<graph>ph>\<close> leaves the marker \<open><graph>\<close>.
\<close>

theorem preprocess_graph_zero_counterexample:
  "preprocess_graph as_written
     [[\<lparr>sfrom = ''human'', svalue = ''A <graph> B''\<rparr>]]
     \<lparr>is_graph = True, sep_graph_conv_front = False, use_graph_start_end = True\<rparr> 0
   = Inr [[\<lparr>sfrom = ''human'', svalue = ''A <g_start><g_end> B''\<rparr>]] \<and>
   preprocess_graph as_written
     [[\<lparr>sfrom = ''human'', svalue = ''<gra<graph>ph>''\<rparr>]]
     \<lparr>is_graph = True, sep_graph_conv_front = False, use_graph_start_end = False\<rparr> 0
   = Inr [[\<lparr>sfrom = ''human'', svalue = ''<graph>''\<rparr>]]"
  by code_simp

text \<open>
  C6, amended: when \<open>is_graph\<close> is set and neither \<open>sep_graph_conv_front\<close> nor
  \<open>use_graph_start_end\<close> is, a count of 0 turns every turn text into the text between
  its markers, joined with nothing in their place; and when every \<open><\<close> of a text is
  the first character of one of its markers, what is left holds neither a marker nor a
  patch token.
\<close>

theorem preprocess_graph_zero:
  assumes "is_graph cfg" "\<not> sep_graph_conv_front cfg" "\<not> use_graph_start_end cfg"
  shows "preprocess_graph cls sources cfg 0
         = Inr (map (map (\<lambda>s. s\<lparr>svalue := remove_markers (svalue s)\<rparr>)) sources) \<and>
         (\<forall>v. length (filter (\<lambda>c. c = CHR ''<'') v) = count_occurrences v DEFAULT_GRAPH_TOKEN \<longrightarrow>
            \<not> contains (remove_markers v) DEFAULT_GRAPH_TOKEN \<and>
            \<not> contains (remove_markers v) DEFAULT_GRAPH_PATCH_TOKEN)"
proof (intro conjI allI impI)
  show "preprocess_graph cls sources cfg 0
         = Inr (map (map (\<lambda>s. s\<lparr>svalue := remove_markers (svalue s)\<rparr>)) sources)"
    by (rule graph_zero_map [OF assms])
next
  fix v
  assume "length (filter (\<lambda>c. c = CHR ''<'') v) = count_occurrences v DEFAULT_GRAPH_TOKEN"
  with count_marker_starts [of v]
  have "filter (\<lambda>c. c = CHR ''<'') (remove_markers v) = []"
    by (simp add: count_occurrences_def remove_markers_def DEFAULT_GRAPH_TOKEN_def)
  then have n: "CHR ''<'' \<notin> set (remove_markers v)"
    by (auto simp: filter_empty_conv)
  show "\<not> contains (remove_markers v) DEFAULT_GRAPH_TOKEN"
    using contains_hd [of DEFAULT_GRAPH_TOKEN "remove_markers v"] n
    by (auto simp: DEFAULT_GRAPH_TOKEN_def)
  show "\<not> contains (remove_markers v) DEFAULT_GRAPH_PATCH_TOKEN"
    using contains_hd [of DEFAULT_GRAPH_PATCH_TOKEN "remove_markers v"] n
    by (auto simp: DEFAULT_GRAPH_PATCH_TOKEN_def)
qed

text \<open>C6, amended, at a conversation of two turns, the first with one marker.\<close>

theorem preprocess_graph_zero_witness:
  "preprocess_graph as_written
     [[\<lparr>sfrom = ''human'', svalue = ''A <graph> B''\<rparr>, \<lparr>sfrom = ''gpt'', svalue = ''C''\<rparr>]]
     \<lparr>is_graph = True, sep_graph_conv_front = False, use_graph_start_end = False\<rparr> 0
   = Inr [[\<lparr>sfrom = ''human'', svalue = ''A  B''\<rparr>, \<lparr>sfrom = ''gpt'', svalue = ''C''\<rparr>]] \<and>
   \<not> contains ''A  B'' DEFAULT_GRAPH_TOKEN \<and> \<not> contains ''A  B'' DEFAULT_GRAPH_PATCH_TOKEN"
proof -
  let ?cfg = "\<lparr>is_graph = True, sep_graph_conv_front = False, use_graph_start_end = False\<rparr>"
  have pre: "is_graph ?cfg" "\<not> sep_graph_conv_front ?cfg" "\<not> use_graph_start_end ?cfg"
    by simp_all
  note T = preprocess_graph_zero [OF pre, of as_written
      "[[\<lparr>sfrom = ''human'', svalue = ''A <graph> B''\<rparr>, \<lparr>sfrom = ''gpt'', svalue = ''C''\<rparr>]]"]
  have r: "remove_markers ''A <graph> B'' = ''A  B''" "remove_markers ''C'' = ''C''"
    by code_simp+
  have h: "length (filter (\<lambda>c. c = CHR ''<'') ''A <graph> B'') = count_occurrences ''A <graph> B'' DEFAULT_GRAPH_TOKEN"
    by code_simp
  from T h have "\<not> contains (remove_markers ''A <graph> B'') DEFAULT_GRAPH_TOKEN \<and>
            \<not> contains (remove_markers ''A <graph> B'') DEFAULT_GRAPH_PATCH_TOKEN"
    by blast
  moreover from T have "preprocess_graph as_written
     [[\<lparr>sfrom = ''human'', svalue = ''A <graph> B''\<rparr>, \<lparr>sfrom = ''gpt'', svalue = ''C''\<rparr>]] ?cfg 0
   = Inr [[\<lparr>sfrom = ''human'', svalue = remove_markers ''A <graph> B''\<rparr>,
           \<lparr>sfrom = ''gpt'', svalue = remove_markers ''C''\<rparr>]]"
    by simp
  ultimately show ?thesis unfolding r by simp
qed

section \<open>Graph token expansion: two markers\<close>

lemma slice_to: "0 \<le> i \<Longrightarrow> slice xs None (Some i) = take (nat i) xs"
  by (auto simp: slice_def slice_bounds_def norm_index_def min_def)

lemma slice_from: "0 \<le> i \<Longrightarrow> slice xs (Some i) None = drop (nat i) xs"
  by (auto simp: slice_def slice_bounds_def norm_index_def min_def)

lemma startswith_short:
  assumes "startswith (x @ y) g" "\<not> startswith x g"
  shows "length x < length g"
proof (rule ccontr)
  assume "\<not> length x < length g"
  then have "take (length g) (x @ y) = take (length g) x" by simp
  with assms show False by (simp add: startswith_def)
qed

text \<open>A pattern whose first character does not come back in it cannot begin before and
  end after the start of a text that begins with that character.\<close>

lemma str_find_skip:
  assumes g: "g \<noteq> []" "hd g \<notin> set (tl g)"
    and y: "y \<noteq> []" "hd y = hd g"
    and a: "\<not> contains a g"
  shows "str_find (a @ y) g = (if str_find y g < 0 then - 1 else int (length a) + str_find y g)"
  using a
proof (induction a)
  case Nil
  then show ?case using str_find_range [of y g] by auto
next
  case (Cons c a)
  from Cons.prems have nf: "str_find (c # a) g < 0" by (simp add: contains_def)
  then have ns: "\<not> startswith (c # a) g" by (auto simp: Let_def split: if_splits)
  from nf ns have "str_find a g < 0" by (auto simp: Let_def split: if_splits)
  then have IH: "str_find (a @ y) g = (if str_find y g < 0 then - 1 else int (length a) + str_find y g)"
    using Cons.IH by (simp add: contains_def)
  have "\<not> startswith ((c # a) @ y) g"
  proof
    assume s: "startswith ((c # a) @ y) g"
    from startswith_short [OF s ns] have lt: "length (c # a) < length g" .
    from s have "take (length g) ((c # a) @ y) = g" by (simp add: startswith_def)
    then have "g ! length (c # a) = (take (length g) ((c # a) @ y)) ! length (c # a)" by simp
    also have "\<dots> = ((c # a) @ y) ! length (c # a)" using lt by simp
    also have "\<dots> = hd y" using y(1) by (simp add: nth_append hd_conv_nth)
    finally have "g ! length (c # a) = hd g" using y(2) by simp
    moreover have "g ! length (c # a) = tl g ! length a"
      using g(1) by (cases g) auto
    moreover have "length a < length (tl g)" using lt by simp
    ultimately have "hd g \<in> set (tl g)" by (metis nth_mem)
    with g(2) show False by simp
  qed
  then show ?case using IH str_find_range [of y g] by (auto simp: Let_def)
qed

lemma patch_like_append: "patch_like x \<Longrightarrow> patch_like y \<Longrightarrow> patch_like (x @ y)"
proof (induction x)
  case Nil
  then show ?case by simp
next
  case (Cons c x)
  then have "c = CHR ''<'' \<longrightarrow> take 2 (x @ y) = ''g_''"
    by (cases x; cases "tl x") auto
  with Cons show ?case by simp
qed

lemma patch_like_times: "patch_like (str_times DEFAULT_GRAPH_PATCH_TOKEN n)"
proof -
  have "patch_like (concat (replicate k ''<g_patch>''))" for k
  proof (induction k)
    case 0
    show ?case by simp
  next
    case (Suc k)
    have "patch_like ''<g_patch>''" by simp
    from patch_like_append [OF this Suc] show ?case by simp
  qed
  then show ?thesis by (simp add: str_times_def DEFAULT_GRAPH_PATCH_TOKEN_def)
qed

lemma patch_like_replace_token: "patch_like (replace_token cfg n)"
proof -
  have s: "patch_like DEFAULT_G_START_TOKEN" and e: "patch_like DEFAULT_G_END_TOKEN"
    by (simp_all add: DEFAULT_G_START_TOKEN_def DEFAULT_G_END_TOKEN_def)
  show ?thesis
    unfolding replace_token_def Let_def
    using patch_like_append [OF s patch_like_append [OF patch_like_times e]] patch_like_times
    by simp
qed

lemma replace_token_hd:
  assumes "0 < n \<or> use_graph_start_end cfg"
  shows "replace_token cfg n \<noteq> [] \<and> hd (replace_token cfg n) = CHR ''<''"
proof (cases "use_graph_start_end cfg")
  case True
  then show ?thesis by (simp add: replace_token_def DEFAULT_G_START_TOKEN_def)
next
  case False
  with assms have "0 < n" by simp
  then obtain k where "nat n = Suc k" by (cases "nat n") auto
  with False show ?thesis
    by (simp add: replace_token_def str_times_def DEFAULT_GRAPH_PATCH_TOKEN_def)
qed

lemma str_find_patch_like:
  "patch_like t \<Longrightarrow>
   str_find (t @ b) ''<graph>'' = (if str_find b ''<graph>'' < 0 then - 1 else int (length t) + str_find b ''<graph>'')"
proof (induction t)
  case Nil
  then show ?case using str_find_range [of b "''<graph>''"] by auto
next
  case (Cons c t)
  have "\<not> startswith ((c # t) @ b) ''<graph>''"
  proof (cases "c = CHR ''<''")
    case True
    with Cons.prems have "take 2 t = ''g_''" by simp
    then obtain w where "t = CHR ''g'' # CHR ''_'' # w"
      by (cases t; cases "tl t") auto
    then show ?thesis by (simp add: startswith_def)
  next
    case False
    then show ?thesis by (auto simp: startswith_def)
  qed
  moreover have "patch_like t" using Cons.prems by simp
  ultimately show ?case using Cons.IH str_find_range [of b "''<graph>''"] by (auto simp: Let_def)
qed


lemma replace_first_two_markers:
  assumes r1: "r1 \<noteq> []" "hd r1 = CHR ''<''" "patch_like r1"
    and a: "\<not> contains a DEFAULT_GRAPH_TOKEN" and b: "\<not> contains b DEFAULT_GRAPH_TOKEN"
  shows "replace_first_two (a @ DEFAULT_GRAPH_TOKEN @ b @ DEFAULT_GRAPH_TOKEN @ c) r1 r2
         = a @ r1 @ b @ r2 @ c"
proof -
  let ?g = "''<graph>''"
  have g: "?g \<noteq> []" "hd ?g \<notin> set (tl ?g)" by simp_all
  from a b have a': "\<not> contains a ?g" and b': "\<not> contains b ?g"
    by (simp_all add: DEFAULT_GRAPH_TOKEN_def)
  have f0: "str_find (?g @ x) ?g = 0" for x by (rule str_find_self_append)
  have f1: "str_find (a @ ?g @ x) ?g = int (length a)" for x
    using str_find_skip [OF g _ _ a', of "?g @ x"] f0 [of x] by simp
  have fb: "str_find (b @ ?g @ x) ?g = int (length b)" for x
    using str_find_skip [OF g _ _ b', of "?g @ x"] f0 [of x] by simp
  have fr: "str_find (r1 @ b @ ?g @ c) ?g = int (length r1) + int (length b)"
    using str_find_patch_like [OF r1(3), of "b @ ?g @ c"] fb [of c] by simp
  have f2: "str_find (a @ r1 @ b @ ?g @ c) ?g = int (length a) + int (length r1) + int (length b)"
    using str_find_skip [OF g _ _ a', of "r1 @ b @ ?g @ c"] r1(1,2) fr by simp
  have v1: "slice (a @ ?g @ b @ ?g @ c) None (Some (int (length a))) @ r1 @
        slice (a @ ?g @ b @ ?g @ c) (Some (int (length a) + int (length ?g))) None
        = a @ r1 @ b @ ?g @ c"
    by (simp add: slice_to slice_from nat_add_distrib)
  have v2: "slice (a @ r1 @ b @ ?g @ c) None (Some (int (length a) + int (length r1) + int (length b))) @ r2 @
        slice (a @ r1 @ b @ ?g @ c)
          (Some (int (length a) + int (length r1) + int (length b) + int (length ?g))) None
        = a @ r1 @ b @ r2 @ c"
    by (simp add: slice_to slice_from nat_add_distrib)
  have "contains (a @ ?g @ b @ ?g @ c) ?g" using f1 [of "b @ ?g @ c"] by (simp add: contains_def)
  then show ?thesis
    unfolding replace_first_two_def DEFAULT_GRAPH_TOKEN_def Let_def
    using f1 [of "b @ ?g @ c"] f2 v1 v2 by simp
qed

text \<open>
  C3, as the specification has it: the first two markers of a turn text become the two
  expansions and the rest of the text stays. With \<open>is_graph\<close> unset nothing is replaced.
  With a first count of 0 and no start and end tokens, taking the first marker out of
  \<open><gra<graph>ph><graph>\<close> makes a new marker in front of the second one, and the
  second search, which starts again at the beginning of the text, replaces the new one:
  the result is the second expansion followed by \<open><graph>\<close>, not \<open><graph>\<close> followed
  by the second expansion.
\<close>

theorem preprocess_graph_LP_two_markers_counterexample:
  "preprocess_graph_LP as_written
     [[\<lparr>sfrom = ''human'', svalue = ''A <graph> B <graph> C''\<rparr>]]
     \<lparr>is_graph = False, sep_graph_conv_front = False, use_graph_start_end = False\<rparr> 3 5
   = Inr [[\<lparr>sfrom = ''human'', svalue = ''A <graph> B <graph> C''\<rparr>]] \<and>
   preprocess_graph_LP as_written
     [[\<lparr>sfrom = ''human'', svalue = ''<gra<graph>ph><graph>''\<rparr>]]
     \<lparr>is_graph = True, sep_graph_conv_front = False, use_graph_start_end = False\<rparr> 0 5
   = Inr [[\<lparr>sfrom = ''human'',
            svalue = ''<g_patch><g_patch><g_patch><g_patch><g_patch><graph>''\<rparr>]]"
proof
  show "preprocess_graph_LP as_written
     [[\<lparr>sfrom = ''human'', svalue = ''A <graph> B <graph> C''\<rparr>]]
     \<lparr>is_graph = False, sep_graph_conv_front = False, use_graph_start_end = False\<rparr> 3 5
   = Inr [[\<lparr>sfrom = ''human'', svalue = ''A <graph> B <graph> C''\<rparr>]]"
    by (simp add: preprocess_graph_LP_def)
  show "preprocess_graph_LP as_written
     [[\<lparr>sfrom = ''human'', svalue = ''<gra<graph>ph><graph>''\<rparr>]]
     \<lparr>is_graph = True, sep_graph_conv_front = False, use_graph_start_end = False\<rparr> 0 5
   = Inr [[\<lparr>sfrom = ''human'',
            svalue = ''<g_patch><g_patch><g_patch><g_patch><g_patch><graph>''\<rparr>]]"
    by code_simp
qed

text \<open>
  C3, amended: when \<open>is_graph\<close> is set, \<open>sep_graph_conv_front\<close> is not, and the first
  expansion is not empty (the first count is positive or \<open>use_graph_start_end\<close> is
  set), every turn text goes through the two searches; a text \<open>a <graph> b <graph> c\<close>
  in which \<open>a\<close> and \<open>b\<close> hold no marker becomes \<open>a\<close>, the first expansion, \<open>b\<close>, the
  second expansion, \<open>c\<close>; an expansion is the patch token repeated as many times as its
  count, between the start and end tokens when \<open>use_graph_start_end\<close> is set.
\<close>

theorem preprocess_graph_LP_two_markers:
  assumes "is_graph cfg" "\<not> sep_graph_conv_front cfg" "0 < n1 \<or> use_graph_start_end cfg"
  shows "preprocess_graph_LP cls sources cfg n1 n2
         = Inr (map (map (\<lambda>s. s\<lparr>svalue := replace_first_two (svalue s)
                                   (replace_token cfg n1) (replace_token cfg n2)\<rparr>)) sources) \<and>
         (\<forall>a b c. \<not> contains a DEFAULT_GRAPH_TOKEN \<and> \<not> contains b DEFAULT_GRAPH_TOKEN \<longrightarrow>
            replace_first_two (a @ DEFAULT_GRAPH_TOKEN @ b @ DEFAULT_GRAPH_TOKEN @ c)
              (replace_token cfg n1) (replace_token cfg n2)
            = a @ replace_token cfg n1 @ b @ replace_token cfg n2 @ c) \<and>
         (\<forall>n. replace_token cfg n =
            (if use_graph_start_end cfg
             then ''<g_start>'' @ concat (replicate (nat n) ''<g_patch>'') @ ''<g_end>''
             else concat (replicate (nat n) ''<g_patch>'')))"
proof (intro conjI allI impI)
  have "preprocess_graph_LP_source cls cfg n1 n2
        = (\<lambda>src. Inr (map (\<lambda>s. s\<lparr>svalue := replace_first_two (svalue s)
                                   (replace_token cfg n1) (replace_token cfg n2)\<rparr>) src))"
    using assms(2) by (auto simp: preprocess_graph_LP_source_def bind_err_def)
  then show "preprocess_graph_LP cls sources cfg n1 n2
         = Inr (map (map (\<lambda>s. s\<lparr>svalue := replace_first_two (svalue s)
                                   (replace_token cfg n1) (replace_token cfg n2)\<rparr>)) sources)"
    using assms(1) by (simp add: preprocess_graph_LP_def map_err_Inr)
next
  fix a b c
  assume "\<not> contains a DEFAULT_GRAPH_TOKEN \<and> \<not> contains b DEFAULT_GRAPH_TOKEN"
  then show "replace_first_two (a @ DEFAULT_GRAPH_TOKEN @ b @ DEFAULT_GRAPH_TOKEN @ c)
              (replace_token cfg n1) (replace_token cfg n2)
            = a @ replace_token cfg n1 @ b @ replace_token cfg n2 @ c"
    using replace_first_two_markers [of "replace_token cfg n1" a b c "replace_token cfg n2"]
      replace_token_hd [OF assms(3)] patch_like_replace_token [of cfg n1]
    by simp
next
  fix n
  show "replace_token cfg n =
            (if use_graph_start_end cfg
             then ''<g_start>'' @ concat (replicate (nat n) ''<g_patch>'') @ ''<g_end>''
             else concat (replicate (nat n) ''<g_patch>''))"
    by (simp add: replace_token_def str_times_def DEFAULT_GRAPH_PATCH_TOKEN_def
          DEFAULT_G_START_TOKEN_def DEFAULT_G_END_TOKEN_def)
qed

text \<open>C3, amended, at the counts 3 and 5.\<close>

theorem preprocess_graph_LP_two_markers_witness:
  "preprocess_graph_LP as_written
     [[\<lparr>sfrom = ''human'', svalue = ''A <graph> B <graph> C''\<rparr>]]
     \<lparr>is_graph = True, sep_graph_conv_front = False, use_graph_start_end = False\<rparr> 3 5
   = Inr [[\<lparr>sfrom = ''human'',
            svalue = ''A <g_patch><g_patch><g_patch> B <g_patch><g_patch><g_patch><g_patch><g_patch> C''\<rparr>]]"
proof -
  let ?cfg = "\<lparr>is_graph = True, sep_graph_conv_front = False, use_graph_start_end = False\<rparr>"
  have pre: "is_graph ?cfg" "\<not> sep_graph_conv_front ?cfg" "0 < (3::int) \<or> use_graph_start_end ?cfg"
    by simp_all
  note T = preprocess_graph_LP_two_markers [OF pre, of as_written
        "[[\<lparr>sfrom = ''human'', svalue = ''A <graph> B <graph> C''\<rparr>]]" 5]
  have h: "\<not> contains ''A '' DEFAULT_GRAPH_TOKEN \<and> \<not> contains '' B '' DEFAULT_GRAPH_TOKEN"
    by code_simp
  from T have t: "preprocess_graph_LP as_written
       [[\<lparr>sfrom = ''human'', svalue = ''A <graph> B <graph> C''\<rparr>]] ?cfg 3 5
     = Inr [[\<lparr>sfrom = ''human'',
              svalue = replace_first_two ''A <graph> B <graph> C'' (replace_token ?cfg 3) (replace_token ?cfg 5)\<rparr>]]"
    by simp
  from T h have "replace_first_two (''A '' @ DEFAULT_GRAPH_TOKEN @ '' B '' @ DEFAULT_GRAPH_TOKEN @ '' C'')
              (replace_token ?cfg 3) (replace_token ?cfg 5)
            = ''A '' @ replace_token ?cfg 3 @ '' B '' @ replace_token ?cfg 5 @ '' C''"
    by blast
  then have r: "replace_first_two ''A <graph> B <graph> C'' (replace_token ?cfg 3) (replace_token ?cfg 5)
      = ''A '' @ replace_token ?cfg 3 @ '' B '' @ replace_token ?cfg 5 @ '' C''"
    by (simp add: DEFAULT_GRAPH_TOKEN_def)
  from T have k: "replace_token ?cfg 3 = concat (replicate (nat 3) ''<g_patch>'')"
           "replace_token ?cfg 5 = concat (replicate (nat 5) ''<g_patch>'')"
    by simp_all
  show ?thesis
    unfolding t r by (simp add: k eval_nat_numeral)
qed

section \<open>Label masking: the length check\<close>





lemma length_slice_fill [simp]: "length (slice_fill xs a b v) = length xs"
  by (auto simp: slice_fill_def slice_bounds_def norm_index_def split: option.splits prod.splits)

lemma length_mask_rounds [simp]: "length (snd (mask_rounds tok sp rounds cur t)) = length t"
  by (induction rounds arbitrary: cur t) auto

lemma length_masked [simp]: "length (snd (masked tok sp rounds row)) = length row"
proof -
  obtain c t where m: "mask_rounds tok sp rounds 1 (slice_fill row None (Some 1) IGNORE_INDEX) = (c, t)"
    by (cases "mask_rounds tok sp rounds 1 (slice_fill row None (Some 1) IGNORE_INDEX)")
  have "length t = length row"
    using length_mask_rounds [of tok sp rounds 1 "slice_fill row None (Some 1) IGNORE_INDEX"] m
    by simp
  then show ?thesis by (simp add: masked_def m)
qed



text \<open>
  As the script stands neither name is bound: every call of \<open>preprocess_v1\<close> raises
  AttributeError in its first statement, and with the first name bound alone no call
  returns.
\<close>

lemma preprocess_v1_as_written: "preprocess_v1 as_written sources tok = Inl AttributeError"
  by (simp add: preprocess_v1_def as_written_def)

lemma preprocess_v1_style_unbound:
  "\<not> SeparatorStyle_bound cls \<Longrightarrow> preprocess_v1 cls sources tok \<noteq> Inr out"
  by (auto simp: preprocess_v1_def bind_err_def Let_def split: option.splits sum.splits)




section \<open>Label masking: the answer tokens\<close>













section \<open>Dataset indices\<close>

lemma select_not_assertion: "select xs i \<noteq> Inl AssertionError"
  by (cases i) (auto simp: select_def getitem_def bind_err_def)

text \<open>
  C8, as the specification has it: in both datasets an index that holds more than one
  record fails with an assertion. \<open>SupervisedDataset.__getitem__\<close> has no assertion: a
  slice over two rows returns both.
\<close>

theorem getitem_assertion_counterexample:
  "SupervisedDataset_getitem
     \<lparr>ds_input_ids = [[1, 7, 2], [1, 8, 2]], ds_labels = [[- 100, 7, 2], [- 100, 8, 2]]\<rparr>
     (SliceIndex (Some 0) (Some 2))
   = Inr (Many [[1, 7, 2], [1, 8, 2]], Many [[- 100, 7, 2], [- 100, 8, 2]])"
  by (simp add: SupervisedDataset_getitem_def select_def bind_err_def slice_def slice_bounds_def
        norm_index_def)

text \<open>
  C8, amended: \<open>LazySupervisedDataset.__getitem__\<close> wraps the record of an integer
  index in a list of one element, so its assertion never fails for an integer index,
  and an integer index in range yields that one record; for a slice the assertion
  fails exactly when the slice holds a number of records other than one, and a slice
  of one record passes it and then fails with TypeError where the id is read.
  \<open>SupervisedDataset.__getitem__\<close> never raises AssertionError: a slice returns the
  selected rows of both tensors, an integer index in range the one row of each.
\<close>

theorem getitem_assertion:
  "(\<forall>k. LazySupervisedDataset_getitem_sources list_data_dict (IntIndex k) \<noteq> Inl AssertionError) \<and>
   (\<forall>k. 0 \<le> k \<and> k < int (length list_data_dict) \<longrightarrow>
      LazySupervisedDataset_getitem_sources list_data_dict (IntIndex k) = Inr [list_data_dict ! nat k]) \<and>
   (\<forall>a b. length (slice list_data_dict a b) \<noteq> 1 \<longrightarrow>
      LazySupervisedDataset_getitem_sources list_data_dict (SliceIndex a b) = Inl AssertionError) \<and>
   (\<forall>a b. length (slice list_data_dict a b) = 1 \<longrightarrow>
      LazySupervisedDataset_getitem_sources list_data_dict (SliceIndex a b)
        = Inr (slice list_data_dict a b) \<and>
      LazySupervisedDataset_getitem_task_type list_data_dict (SliceIndex a b) = Inl TypeError) \<and>
   (\<forall>i. SupervisedDataset_getitem self i \<noteq> Inl AssertionError) \<and>
   (\<forall>a b. SupervisedDataset_getitem self (SliceIndex a b)
      = Inr (Many (slice (ds_input_ids self) a b), Many (slice (ds_labels self) a b))) \<and>
   (\<forall>k. 0 \<le> k \<and> k < int (length (ds_input_ids self)) \<and> k < int (length (ds_labels self)) \<longrightarrow>
      SupervisedDataset_getitem self (IntIndex k)
        = Inr (One (ds_input_ids self ! nat k), One (ds_labels self ! nat k)))"
proof (intro conjI allI impI)
  fix k
  show "LazySupervisedDataset_getitem_sources list_data_dict (IntIndex k) \<noteq> Inl AssertionError"
    by (auto simp: LazySupervisedDataset_getitem_sources_def select_def getitem_def bind_err_def)
next
  fix k
  assume "0 \<le> k \<and> k < int (length list_data_dict)"
  then show "LazySupervisedDataset_getitem_sources list_data_dict (IntIndex k) = Inr [list_data_dict ! nat k]"
    by (simp add: LazySupervisedDataset_getitem_sources_def select_def getitem_def bind_err_def)
next
  fix a b
  assume "length (slice list_data_dict a b) \<noteq> 1"
  then show "LazySupervisedDataset_getitem_sources list_data_dict (SliceIndex a b) = Inl AssertionError"
    by (simp add: LazySupervisedDataset_getitem_sources_def select_def bind_err_def)
next
  fix a b
  assume one: "length (slice list_data_dict a b) = 1"
  then show "LazySupervisedDataset_getitem_sources list_data_dict (SliceIndex a b)
        = Inr (slice list_data_dict a b)"
    by (simp add: LazySupervisedDataset_getitem_sources_def select_def bind_err_def)
  from one show "LazySupervisedDataset_getitem_task_type list_data_dict (SliceIndex a b) = Inl TypeError"
    by (simp add: LazySupervisedDataset_getitem_task_type_def
          LazySupervisedDataset_getitem_sources_def select_def bind_err_def)
next
  fix i
  show "SupervisedDataset_getitem self i \<noteq> Inl AssertionError"
    using select_not_assertion [of "ds_input_ids self" i] select_not_assertion [of "ds_labels self" i]
    by (auto simp: SupervisedDataset_getitem_def bind_err_def split: sum.splits)
next
  fix a b
  show "SupervisedDataset_getitem self (SliceIndex a b)
      = Inr (Many (slice (ds_input_ids self) a b), Many (slice (ds_labels self) a b))"
    by (simp add: SupervisedDataset_getitem_def select_def bind_err_def)
next
  fix k
  assume "0 \<le> k \<and> k < int (length (ds_input_ids self)) \<and> k < int (length (ds_labels self))"
  then show "SupervisedDataset_getitem self (IntIndex k)
        = Inr (One (ds_input_ids self ! nat k), One (ds_labels self ! nat k))"
    by (simp add: SupervisedDataset_getitem_def select_def getitem_def bind_err_def)
qed

text \<open>C8, amended, at a list of two records and at two rows.\<close>

theorem getitem_assertion_witness:
  "LazySupervisedDataset_getitem_sources
     [\<lparr>example_id = ''cora_1_NC'', example_conversations = tiny_source\<rparr>,
      \<lparr>example_id = ''cora_2_LP'', example_conversations = long_source\<rparr>] (IntIndex 1)
     = Inr [\<lparr>example_id = ''cora_2_LP'', example_conversations = long_source\<rparr>] \<and>
   LazySupervisedDataset_getitem_sources
     [\<lparr>example_id = ''cora_1_NC'', example_conversations = tiny_source\<rparr>,
      \<lparr>example_id = ''cora_2_LP'', example_conversations = long_source\<rparr>] (SliceIndex (Some 0) (Some 2))
     = Inl AssertionError \<and>
   LazySupervisedDataset_getitem_task_type
     [\<lparr>example_id = ''cora_1_NC'', example_conversations = tiny_source\<rparr>,
      \<lparr>example_id = ''cora_2_LP'', example_conversations = long_source\<rparr>] (SliceIndex (Some 0) (Some 1))
     = Inl TypeError \<and>
   SupervisedDataset_getitem
     \<lparr>ds_input_ids = [[1, 7, 2], [1, 8, 2]], ds_labels = [[- 100, 7, 2], [- 100, 8, 2]]\<rparr> (IntIndex 1)
     = Inr (One [1, 8, 2], One [- 100, 8, 2])"
  using getitem_assertion [of
     "[\<lparr>example_id = ''cora_1_NC'', example_conversations = tiny_source\<rparr>,
       \<lparr>example_id = ''cora_2_LP'', example_conversations = long_source\<rparr>]"
     "\<lparr>ds_input_ids = [[1, 7, 2], [1, 8, 2]], ds_labels = [[- 100, 7, 2], [- 100, 8, 2]]\<rparr>"]
  by (simp add: slice_def slice_bounds_def norm_index_def)

end
